theory Spec2Isabelle
  imports Main
begin

section \<open>Python strings\<close>

text \<open>
  A Python \<open>str\<close> is modelled as a \<open>string\<close>, one \<open>char\<close> per code point; the model
  covers the code points below 256 (Latin-1). The functions of this section are the
  built-in string operations that \<open>app.py\<close> calls.
\<close>

definition isspace :: "char \<Rightarrow> bool" where
  \<comment> \<open>\<open>str.isspace\<close> on one character; the same set is what \<open>\s\<close> matches in \<open>re\<close>
      and what \<open>str.strip()\<close> removes.\<close>
  "isspace c = (c \<in> {CHR 0x09, CHR 0x0A, CHR 0x0B, CHR 0x0C, CHR 0x0D, CHR 0x1C, CHR 0x1D,
                       CHR 0x1E, CHR 0x1F, CHR 0x20, CHR 0x85, CHR 0xA0})"

definition strip :: "string \<Rightarrow> string" where
  \<comment> \<open>\<open>s.strip()\<close>\<close>
  "strip s = rev (dropWhile isspace (rev (dropWhile isspace s)))"

definition upper_chars :: "char list" where
  "upper_chars = ''ABCDEFGHIJKLMNOPQRSTUVWXYZ'' @
     [CHR 0xC0, CHR 0xC1, CHR 0xC2, CHR 0xC3, CHR 0xC4, CHR 0xC5, CHR 0xC6, CHR 0xC7,
      CHR 0xC8, CHR 0xC9, CHR 0xCA, CHR 0xCB, CHR 0xCC, CHR 0xCD, CHR 0xCE, CHR 0xCF,
      CHR 0xD0, CHR 0xD1, CHR 0xD2, CHR 0xD3, CHR 0xD4, CHR 0xD5, CHR 0xD6,
      CHR 0xD8, CHR 0xD9, CHR 0xDA, CHR 0xDB, CHR 0xDC, CHR 0xDD, CHR 0xDE]"

definition lower_chars :: "char list" where
  "lower_chars = ''abcdefghijklmnopqrstuvwxyz'' @
     [CHR 0xE0, CHR 0xE1, CHR 0xE2, CHR 0xE3, CHR 0xE4, CHR 0xE5, CHR 0xE6, CHR 0xE7,
      CHR 0xE8, CHR 0xE9, CHR 0xEA, CHR 0xEB, CHR 0xEC, CHR 0xED, CHR 0xEE, CHR 0xEF,
      CHR 0xF0, CHR 0xF1, CHR 0xF2, CHR 0xF3, CHR 0xF4, CHR 0xF5, CHR 0xF6,
      CHR 0xF8, CHR 0xF9, CHR 0xFA, CHR 0xFB, CHR 0xFC, CHR 0xFD, CHR 0xFE]"

definition lower_char :: "char \<Rightarrow> char" where
  "lower_char c = (case map_of (zip upper_chars lower_chars) c of None \<Rightarrow> c | Some d \<Rightarrow> d)"

definition lower :: "string \<Rightarrow> string" where
  \<comment> \<open>\<open>s.lower()\<close>\<close>
  "lower s = map lower_char s"

fun join :: "string \<Rightarrow> string list \<Rightarrow> string" where
  \<comment> \<open>\<open>sep.join(xs)\<close>\<close>
  "join sep [] = []"
| "join sep [x] = x"
| "join sep (x # y # ys) = x @ sep @ join sep (y # ys)"

definition rsplit1 :: "char \<Rightarrow> string \<Rightarrow> string list" where
  \<comment> \<open>\<open>s.rsplit(c, 1)\<close>: split once, at the last occurrence of \<open>c\<close>\<close>
  "rsplit1 c s =
     (if c \<in> set s
      then [rev (tl (dropWhile (\<lambda>x. x \<noteq> c) (rev s))), rev (takeWhile (\<lambda>x. x \<noteq> c) (rev s))]
      else [s])"

definition is_linebreak :: "char \<Rightarrow> bool" where
  \<comment> \<open>the line boundaries of \<open>str.splitlines\<close> other than the pair CR LF\<close>
  "is_linebreak c = (c \<in> {CHR 0x0A, CHR 0x0B, CHR 0x0C, CHR 0x0D, CHR 0x1C, CHR 0x1D, CHR 0x1E,
                           CHR 0x85})"

fun splitlines_from :: "string \<Rightarrow> string \<Rightarrow> string list" where
  \<comment> \<open>the first argument is the line read so far, reversed\<close>
  "splitlines_from cur [] = (if cur = [] then [] else [rev cur])"
| "splitlines_from cur (c # cs) =
     (if c = CHR 0x0D then
        (case cs of
           [] \<Rightarrow> rev cur # splitlines_from [] cs
         | d # rest \<Rightarrow> if d = CHR 0x0A then rev cur # splitlines_from [] rest
                       else rev cur # splitlines_from [] cs)
      else if is_linebreak c then rev cur # splitlines_from [] cs
      else splitlines_from (c # cur) cs)"

definition splitlines :: "string \<Rightarrow> string list" where
  \<comment> \<open>\<open>s.splitlines()\<close>: no line for the empty text after a final line break\<close>
  "splitlines s = splitlines_from [] s"

section \<open>Regular expressions\<close>

text \<open>
  The patterns of \<open>app.py\<close> are built from character classes, concatenation and \<open>+\<close>.
  \<open>rx_matches\<close> decides whether a whole string belongs to a pattern, by derivatives.
\<close>

datatype rx =
    Never
  | Empty
  | Class "char \<Rightarrow> bool"
  | Or rx rx
  | Then rx rx
  | Many rx

definition OneOrMore :: "rx \<Rightarrow> rx" where
  "OneOrMore r = Then r (Many r)"

definition Lit :: "char \<Rightarrow> rx" where
  "Lit c = Class (\<lambda>x. x = c)"

fun accepts_empty :: "rx \<Rightarrow> bool" where
  "accepts_empty Never = False"
| "accepts_empty Empty = True"
| "accepts_empty (Class p) = False"
| "accepts_empty (Or r s) = (accepts_empty r \<or> accepts_empty s)"
| "accepts_empty (Then r s) = (accepts_empty r \<and> accepts_empty s)"
| "accepts_empty (Many r) = True"

fun after :: "char \<Rightarrow> rx \<Rightarrow> rx" where
  "after c Never = Never"
| "after c Empty = Never"
| "after c (Class p) = (if p c then Empty else Never)"
| "after c (Or r s) = Or (after c r) (after c s)"
| "after c (Then r s) =
     (if accepts_empty r then Or (Then (after c r) s) (after c s) else Then (after c r) s)"
| "after c (Many r) = Then (after c r) (Many r)"

fun rx_matches :: "rx \<Rightarrow> string \<Rightarrow> bool" where
  "rx_matches r [] = accepts_empty r"
| "rx_matches r (c # cs) = rx_matches (after c r) cs"

definition match_to_end :: "rx \<Rightarrow> string \<Rightarrow> bool" where
  \<comment> \<open>truth value of \<open>re.compile("^" + r + "$").match(s)\<close>: \<open>$\<close> matches at the end of the
      string and also just before a newline that ends the string\<close>
  "match_to_end r s =
     (rx_matches r s \<or> (s \<noteq> [] \<and> last s = CHR 0x0A \<and> rx_matches r (butlast s)))"

fun split_runs_from :: "(char \<Rightarrow> bool) \<Rightarrow> bool \<Rightarrow> string \<Rightarrow> string \<Rightarrow> string list" where
  \<comment> \<open>the flag says that the previous character belonged to a separator run; the
      third argument is the piece read so far, reversed\<close>
  "split_runs_from sep in_run cur [] = [rev cur]"
| "split_runs_from sep in_run cur (c # cs) =
     (if sep c then
        (if in_run then split_runs_from sep True cur cs
         else rev cur # split_runs_from sep True [] cs)
      else split_runs_from sep False (c # cur) cs)"

definition re_split_runs :: "(char \<Rightarrow> bool) \<Rightarrow> string \<Rightarrow> string list" where
  \<comment> \<open>\<open>re.split("[...]+", s)\<close> for a character class: the pieces between the maximal runs
      of class characters, with an empty piece before a leading and after a trailing run\<close>
  "re_split_runs sep s = split_runs_from sep False [] s"

section \<open>Recipient parser\<close>

definition not_at_space :: "char \<Rightarrow> bool" where
  \<comment> \<open>the class \<open>[^@\s]\<close>\<close>
  "not_at_space c = (c \<noteq> CHR ''@'' \<and> \<not> isspace c)"

definition EMAIL_REGEX :: rx where
  \<comment> \<open>\<open>^[^@\s]+@[^@\s]+\.[^@\s]+$\<close>, without the anchors\<close>
  "EMAIL_REGEX =
     Then (OneOrMore (Class not_at_space))
       (Then (Lit (CHR ''@''))
         (Then (OneOrMore (Class not_at_space))
           (Then (Lit (CHR ''.'')) (OneOrMore (Class not_at_space)))))"

definition recipient_sep :: "char \<Rightarrow> bool" where
  \<comment> \<open>the class \<open>[,\n;\r]\<close>\<close>
  "recipient_sep c = (c \<in> {CHR '','', CHR 0x0A, CHR '';'', CHR 0x0D})"

definition parse_recipients :: "string option \<Rightarrow> string list" where
  "parse_recipients raw =
     (case raw of
        None \<Rightarrow> []
      | Some s \<Rightarrow>
          if s = [] then []
          else
            let parts = re_split_runs recipient_sep s;
                emails = map strip (filter (\<lambda>p. strip p \<noteq> []) parts);
                valid = filter (match_to_end EMAIL_REGEX) emails
            in valid)"

section \<open>Exceptions, configuration and the outside world\<close>

datatype exn =
    IndexError
  | RuntimeError string
  | FileNotFoundError string
  | LibraryError string

text \<open>
  \<open>LibraryError\<close> stands for any exception raised inside a library or a remote service
  (PyPDF2, python-docx, werkzeug, smtplib, the email package, the Groq client), with its
  message. All four are subclasses of \<open>Exception\<close>.
\<close>

fun exn_str :: "exn \<Rightarrow> string" where
  \<comment> \<open>\<open>str(e)\<close>\<close>
  "exn_str IndexError = ''list index out of range''"
| "exn_str (RuntimeError m) = m"
| "exn_str (FileNotFoundError p) = ''[Errno 2] No such file or directory: '' @ p"
| "exn_str (LibraryError m) = m"

definition item :: "'a list \<Rightarrow> nat \<Rightarrow> exn + 'a" where
  \<comment> \<open>\<open>xs[i]\<close> for a non-negative index\<close>
  "item xs i = (if i < length xs then Inr (xs ! i) else Inl IndexError)"

record config =
  GROQ_API_KEY :: string
  SMTP_HOST :: string
  SMTP_PORT :: int
  SMTP_USERNAME :: string
  SMTP_PASSWORD :: string
  EMAIL_FROM :: string

definition UPLOAD_FOLDER :: string where
  "UPLOAD_FOLDER = ''uploads''"

definition ALLOWED_EXTENSIONS :: "string set" where
  "ALLOWED_EXTENSIONS = {''txt'', ''pdf'', ''docx''}"

type_synonym bytes = string
type_synonym filesystem = "string \<rightharpoonup> bytes"

datatype page =
    PageText string
  | PageNone
  | PageRaises exn

text \<open>
  A page of an opened PDF, by what \<open>page.extract_text()\<close> does on it: it returns a text,
  returns \<open>None\<close>, or raises. The libraries are parameters of the model.
\<close>

record libs =
  secure_filename :: "string \<Rightarrow> string"
  save_error :: "string \<Rightarrow> exn option"
  read_text :: "bytes \<Rightarrow> string"
  PdfReader :: "bytes \<Rightarrow> exn + page list"
  Document :: "bytes \<Rightarrow> exn + string list"
  chat_completion :: "string \<Rightarrow> string \<Rightarrow> exn + string"

text \<open>
  \<open>save_error path\<close> is the exception of \<open>file.save(path)\<close>, if it raises;
  \<open>read_text\<close> decodes a file opened with \<open>encoding="utf-8", errors="ignore"\<close>;
  \<open>PdfReader\<close> gives the pages of a PDF and \<open>Document\<close> the paragraph texts of a Word
  document, or the exception of opening it; \<open>chat_completion system user\<close> is the text of
  the first choice of the Groq completion for the two messages, or the exception of the
  call.
\<close>

record email =
  msg_from :: string
  msg_to :: string
  msg_subject :: string
  msg_content :: string
  msg_html :: string

datatype event =
    FileSaved string
  | ExtractorCalled string
  | GroqCalled string string
  | ConnectSSL string int
  | ConnectPlain string int
  | Ehlo
  | StartTLS
  | Login string string
  | SendMessage email
  | Quit

record world =
  disk :: filesystem
  trace :: "event list"
  flashed :: "string list"

definition emit :: "event \<Rightarrow> world \<Rightarrow> world" where
  "emit e w = w\<lparr>trace := trace w @ [e]\<rparr>"

definition flash :: "string \<Rightarrow> world \<Rightarrow> world" where
  "flash m w = w\<lparr>flashed := flashed w @ [m]\<rparr>"

definition new_events :: "world \<Rightarrow> world \<Rightarrow> event list" where
  \<comment> \<open>what a run from \<open>w\<close> to \<open>w'\<close> added to the trace\<close>
  "new_events w w' = drop (length (trace w)) (trace w')"

section \<open>File text extractor\<close>

definition allowed_file :: "string \<Rightarrow> exn + bool" where
  "allowed_file filename =
     (if CHR ''.'' \<in> set filename
      then (case item (rsplit1 (CHR ''.'') filename) 1 of
              Inl e \<Rightarrow> Inl e
            | Inr ext \<Rightarrow> Inr (lower ext \<in> ALLOWED_EXTENSIONS))
      else Inr False)"

fun pdf_pages_loop :: "page list \<Rightarrow> string list \<Rightarrow> string list" where
  \<comment> \<open>the loop over \<open>reader.pages\<close>; the second argument is the list \<open>text\<close>\<close>
  "pdf_pages_loop [] text = text"
| "pdf_pages_loop (PageText s # pages) text = pdf_pages_loop pages (text @ [s])"
| "pdf_pages_loop (PageNone # pages) text = pdf_pages_loop pages (text @ [''''])"
| "pdf_pages_loop (PageRaises e # pages) text = pdf_pages_loop pages text"

definition open_file :: "filesystem \<Rightarrow> string \<Rightarrow> exn + bytes" where
  "open_file fs filepath =
     (case fs filepath of None \<Rightarrow> Inl (FileNotFoundError filepath) | Some b \<Rightarrow> Inr b)"

definition extract_text_from_file :: "libs \<Rightarrow> filesystem \<Rightarrow> string \<Rightarrow> exn + string" where
  "extract_text_from_file l fs filepath =
     (case item (rsplit1 (CHR ''.'') filepath) 1 of
        Inl e \<Rightarrow> Inl e
      | Inr e0 \<Rightarrow>
          let ext = lower e0 in
          if ext = ''txt'' then
            (case open_file fs filepath of
               Inl e \<Rightarrow> Inl e
             | Inr b \<Rightarrow> Inr (read_text l b))
          else if ext = ''pdf'' then
            (case open_file fs filepath of
               Inl e \<Rightarrow> Inl e
             | Inr b \<Rightarrow>
                 (case PdfReader l b of
                    Inl e \<Rightarrow> Inl e
                  | Inr pages \<Rightarrow> Inr (join ''\<newline>'' (pdf_pages_loop pages []))))
          else if ext = ''docx'' then
            (case open_file fs filepath of
               Inl e \<Rightarrow> Inl e
             | Inr b \<Rightarrow>
                 (case Document l b of
                    Inl e \<Rightarrow> Inl e
                  | Inr paragraphs \<Rightarrow> Inr (join ''\<newline>'' paragraphs)))
          else Inr '''')"

section \<open>Mail sender\<close>

record smtp_script =
  compose_error :: "exn option"
  connect_error :: "exn option"
  ehlo_error :: "exn option"
  starttls_error :: "exn option"
  ehlo2_error :: "exn option"
  login_error :: "exn option"
  send_error :: "exn option"
  quit_error :: "exn option"

text \<open>
  What the email package and the SMTP server do in one run of \<open>send_email_smtp\<close>: for
  each call, the exception it raises, or \<open>None\<close> when it succeeds. \<open>compose_error\<close> is
  for the construction of the \<open>EmailMessage\<close>, \<open>ehlo2_error\<close> for the \<open>ehlo\<close> after
  \<open>starttls\<close>.
\<close>

fun run_steps :: "(event \<times> exn option) list \<Rightarrow> world \<Rightarrow> (exn + unit) \<times> world" where
  \<comment> \<open>calls in sequence: each is recorded, the first one that raises ends the sequence\<close>
  "run_steps [] w = (Inr (), w)"
| "run_steps ((e, None) # rest) w = run_steps rest (emit e w)"
| "run_steps ((e, Some x) # rest) w = (Inl x, emit e w)"

definition send_email_smtp ::
  "config \<Rightarrow> smtp_script \<Rightarrow> string \<Rightarrow> string \<Rightarrow> string list \<Rightarrow> world \<Rightarrow> (exn + unit) \<times> world"
where
  "send_email_smtp cfg net subject html_body recipients w =
     (if SMTP_HOST cfg = [] \<or> SMTP_USERNAME cfg = [] \<or> SMTP_PASSWORD cfg = [] then
        (Inl (RuntimeError ''SMTP not configured. Set SMTP_HOST, SMTP_USERNAME, SMTP_PASSWORD.''), w)
      else
        (case compose_error net of
           Some e \<Rightarrow> (Inl e, w)
         | None \<Rightarrow>
             let msg = \<lparr>msg_from = EMAIL_FROM cfg,
                        msg_to = join '', '' recipients,
                        msg_subject = subject,
                        msg_content =
                          ''This email contains an HTML summary. View with an HTML-capable mail client.'',
                        msg_html = html_body\<rparr>;
                 is_ssl = (SMTP_PORT cfg = 465);
                 w1 = emit (if is_ssl then ConnectSSL (SMTP_HOST cfg) (SMTP_PORT cfg)
                            else ConnectPlain (SMTP_HOST cfg) (SMTP_PORT cfg)) w
             in
               (case connect_error net of
                  Some e \<Rightarrow> (Inl e, w1)
                | None \<Rightarrow>
                    let (r, w2) =
                          run_steps
                            ([(Ehlo, ehlo_error net)] @
                             (if SMTP_PORT cfg \<in> {587, 25} \<and> \<not> is_ssl
                              then [(StartTLS, starttls_error net), (Ehlo, ehlo2_error net)]
                              else []) @
                             [(Login (SMTP_USERNAME cfg) (SMTP_PASSWORD cfg), login_error net),
                              (SendMessage msg, send_error net)])
                            w1;
                        w3 = emit Quit w2
                    in
                      (case quit_error net of
                         Some e \<Rightarrow> (Inl e, w3)
                       | None \<Rightarrow> (r, w3)))))"

section \<open>Route handlers\<close>

record upload =
  filename :: string
  content :: bytes

record request =
  form :: "string \<rightharpoonup> string"
  files :: "string \<rightharpoonup> upload"
  is_json :: bool
  json :: "string \<rightharpoonup> string option"

text \<open>
  \<open>json\<close> is the object of a JSON request: a field is absent, \<open>null\<close> (\<open>Some None\<close>) or
  a string. The model covers JSON bodies that are objects with string or null fields.
\<close>

datatype jvalue = JBool bool | JString string

datatype response =
    Redirect string
  | RenderTemplate string "(string \<times> string) list"
  | Jsonify nat "(string \<times> jvalue) list"
  | ServerError exn

text \<open>
  \<open>Redirect ''index''\<close> is \<open>redirect(url_for("index"))\<close>; \<open>Jsonify status body\<close> is
  \<open>jsonify(body), status\<close>; \<open>ServerError e\<close> is an exception that leaves the handler.
\<close>

definition os_path_join :: "string \<Rightarrow> string \<Rightarrow> string" where
  \<comment> \<open>\<open>os.path.join(a, b)\<close> of posixpath\<close>
  "os_path_join a b =
     (if b \<noteq> [] \<and> hd b = CHR ''/'' then b
      else if a = [] \<or> last a = CHR ''/'' then a @ b
      else a @ ''/'' @ b)"

definition form_get :: "request \<Rightarrow> string \<Rightarrow> string \<Rightarrow> string" where
  \<comment> \<open>\<open>request.form.get(key, default)\<close>\<close>
  "form_get req key dflt = (case form req key of None \<Rightarrow> dflt | Some v \<Rightarrow> v)"

definition stub_summary :: "string \<Rightarrow> string" where
  \<comment> \<open>lines 162 and 163\<close>
  "stub_summary transcript =
     (let lines = map strip (filter (\<lambda>l. strip l \<noteq> []) (splitlines transcript))
      in ''Stub summary (Groq not configured):\<newline>'' @ join ''\<newline>'' (take 10 lines))"

definition system_content :: string where
  "system_content =
     ''You are a concise, accurate meeting summarizer. Output clear, structured summaries.''"

definition user_content :: "string \<Rightarrow> string \<Rightarrow> string" where
  "user_content prompt transcript =
     ''Instruction: '' @ prompt @ ''\<newline>\<newline>Transcript:\<newline>'' @ transcript"

definition generate_summary ::
  "config \<Rightarrow> libs \<Rightarrow> string \<Rightarrow> string \<Rightarrow> world \<Rightarrow> response \<times> world"
where
  \<comment> \<open>lines 137 to 165 of \<open>generate\<close>, from the transcript on\<close>
  "generate_summary cfg l prompt transcript w =
     (if transcript = [] then
        (Redirect ''index'', flash ''Please upload or paste a transcript.'' w)
      else if GROQ_API_KEY cfg \<noteq> [] then
        (let w1 = emit (GroqCalled system_content (user_content prompt transcript)) w in
         case chat_completion l system_content (user_content prompt transcript) of
           Inl e \<Rightarrow> (Redirect ''index'', flash (''Error generating summary: '' @ exn_str e) w1)
         | Inr summary \<Rightarrow>
             (RenderTemplate ''result.html''
                [(''summary'', summary), (''prompt'', prompt), (''transcript'', transcript)], w1))
      else
        (RenderTemplate ''result.html''
           [(''summary'', stub_summary transcript), (''prompt'', prompt),
            (''transcript'', transcript)], w))"

definition generate :: "config \<Rightarrow> libs \<Rightarrow> request \<Rightarrow> world \<Rightarrow> response \<times> world" where
  "generate cfg l req w =
     (let prompt = strip (form_get req ''prompt'' '''') in
      case files req ''transcript_file'' of
        None \<Rightarrow> generate_summary cfg l prompt (strip (form_get req ''transcript_text'' '''')) w
      | Some file \<Rightarrow>
          if filename file = [] then
            generate_summary cfg l prompt (strip (form_get req ''transcript_text'' '''')) w
          else
            let name = secure_filename l (filename file) in
            (case allowed_file name of
               Inl e \<Rightarrow> (ServerError e, w)
             | Inr ok \<Rightarrow>
                 if \<not> ok then
                   (Redirect ''index'', flash ''Only .txt, .pdf, and .docx files are supported.'' w)
                 else
                   let save_path = os_path_join UPLOAD_FOLDER name in
                   (case save_error l save_path of
                      Some e \<Rightarrow> (ServerError e, w)
                    | None \<Rightarrow>
                        let w1 = emit (FileSaved save_path)
                                   (w\<lparr>disk := (disk w)(save_path \<mapsto> content file)\<rparr>);
                            w2 = emit (ExtractorCalled save_path) w1
                        in
                          (case extract_text_from_file l (disk w2) save_path of
                             Inl e \<Rightarrow> (ServerError e, w2)
                           | Inr transcript \<Rightarrow> generate_summary cfg l prompt transcript w2))))"

definition data_get :: "request \<Rightarrow> string \<Rightarrow> string option \<Rightarrow> string option" where
  \<comment> \<open>\<open>data.get(key, default)\<close>, where \<open>data\<close> is the JSON object of a JSON request and
      the form otherwise; \<open>None\<close> is Python's \<open>None\<close>\<close>
  "data_get req key dflt =
     (if is_json req
      then (case json req key of None \<Rightarrow> dflt | Some v \<Rightarrow> v)
      else (case form req key of None \<Rightarrow> dflt | Some v \<Rightarrow> Some v))"

definition or_else :: "string option \<Rightarrow> string \<Rightarrow> string" where
  \<comment> \<open>\<open>x or d\<close> for a string or \<open>None\<close>\<close>
  "or_else x d = (case x of None \<Rightarrow> d | Some s \<Rightarrow> if s = [] then d else s)"

definition send_email :: "config \<Rightarrow> smtp_script \<Rightarrow> request \<Rightarrow> world \<Rightarrow> response \<times> world" where
  "send_email cfg net req w =
     (let recipients = parse_recipients (data_get req ''recipients'' (Some '''')) in
      if recipients = [] then
        (let msg = ''No valid recipient emails.'' in
         if is_json req then (Jsonify 400 [(''ok'', JBool False), (''error'', JString msg)], w)
         else (Redirect ''index'', flash msg w))
      else
        let subject = or_else (data_get req ''subject'' None) ''Meeting Summary'';
            edited_text = or_else (data_get req ''edited_summary'' None) '''';
            edited_html = or_else (data_get req ''edited_summary_html'' None) '''';
            prompt = or_else (data_get req ''prompt'' None) '''';
            transcript = or_else (data_get req ''transcript'' None) '''';
            body0 = ''<pre style='white-space:pre-wrap'>'' @
                    (if edited_html \<noteq> [] then edited_html else edited_text) @ ''</pre>'';
            body1 = (if prompt \<noteq> []
                     then ''<p><strong>Prompt used:</strong> '' @ prompt @ ''</p>'' @ body0
                     else body0);
            body_html = (if transcript \<noteq> []
                         then body1 @ ''<hr/><details><summary>Original Transcript</summary>'' @
                              ''<pre style='white-space:pre-wrap'>'' @ transcript @
                              ''</pre></details>''
                         else body1)
        in
          (case send_email_smtp cfg net subject body_html recipients w of
             (Inl e, w1) \<Rightarrow>
               (let msg = ''Failed to send email: '' @ exn_str e in
                if is_json req then (Jsonify 500 [(''ok'', JBool False), (''error'', JString msg)], w1)
                else (Redirect ''index'', flash msg w1))
           | (Inr u, w1) \<Rightarrow>
               (let success = ''Summary sent to: '' @ join '', '' recipients in
                if is_json req then (Jsonify 200 [(''ok'', JBool True), (''message'', JString success)], w1)
                else (Redirect ''index'', flash success w1))))"

section \<open>The recipient parser's contract\<close>

text \<open>
  The language of a pattern, the address shape and the splitting into fields as the
  specification words them; \<open>parse_recipients_spec\<close> is the contract of the parser.
\<close>

fun lang :: "rx \<Rightarrow> string set" where
  "lang Never = {}"
| "lang Empty = {[]}"
| "lang (Class p) = {[c] | c. p c}"
| "lang (Or r s) = lang r \<union> lang s"
| "lang (Then r s) = {u @ v | u v. u \<in> lang r \<and> v \<in> lang s}"
| "lang (Many r) = {concat ws | ws. set ws \<subseteq> lang r}"

definition email_shape :: "string \<Rightarrow> bool" where
  \<comment> \<open>one or more characters other than white space and \<open>@\<close>, then \<open>@\<close>, then one or
      more such characters, then a dot, then one or more such characters\<close>
  "email_shape s =
     (\<exists>l d t. s = l @ ''@'' @ d @ ''.'' @ t \<and> l \<noteq> [] \<and> d \<noteq> [] \<and> t \<noteq> [] \<and>
        list_all not_at_space l \<and> list_all not_at_space d \<and> list_all not_at_space t)"

function split_on_runs :: "(char \<Rightarrow> bool) \<Rightarrow> string \<Rightarrow> string list" where
  "split_on_runs sep s =
     (let piece = takeWhile (\<lambda>c. \<not> sep c) s;
          rest = dropWhile (\<lambda>c. \<not> sep c) s
      in if rest = [] then [piece] else piece # split_on_runs sep (dropWhile sep rest))"
  by pat_completeness auto
termination
proof (relation "measure (\<lambda>(sep, s). length s)")
  fix sep :: "char \<Rightarrow> bool" and s piece rest :: string
  assume r: "rest = dropWhile (\<lambda>c. \<not> sep c) s" and ne: "rest \<noteq> []"
  from ne obtain a as where as: "rest = a # as" by (cases rest) simp_all
  with r have "dropWhile (\<lambda>c. \<not> sep c) s = a # as" by simp
  then have "sep a" by (simp add: dropWhile_eq_Cons_conv)
  then have "length (dropWhile sep rest) \<le> length as"
    using as by (simp add: length_dropWhile_le)
  moreover have "length rest \<le> length s" using r by (simp add: length_dropWhile_le)
  ultimately show "((sep, dropWhile sep rest), (sep, s)) \<in> measure (\<lambda>(sep, s). length s)"
    using as by simp
qed simp

definition parse_recipients_spec :: "string option \<Rightarrow> string list" where
  \<comment> \<open>split on the runs of separators, trim every field, drop the empty ones, keep the
      fields of the address shape, in their order\<close>
  "parse_recipients_spec raw =
     (case raw of
        None \<Rightarrow> []
      | Some s \<Rightarrow>
          filter email_shape
            (filter (\<lambda>t. t \<noteq> []) (map strip (split_on_runs recipient_sep s))))"

section \<open>Contracts of the extractor, the stub summary and the upload check\<close>

definition extension :: "string \<Rightarrow> string" where
  \<comment> \<open>the part of a path after its last dot, lowercased\<close>
  "extension filepath = lower (rev (takeWhile (\<lambda>c. c \<noteq> CHR ''.'') (rev filepath)))"

definition has_allowed_extension :: "string \<Rightarrow> bool" where
  "has_allowed_extension name =
     (CHR ''.'' \<in> set name \<and> extension name \<in> ALLOWED_EXTENSIONS)"

fun page_extracts :: "page \<Rightarrow> bool" where
  "page_extracts (PageRaises e) = False"
| "page_extracts (PageText s) = True"
| "page_extracts PageNone = True"

fun page_text :: "page \<Rightarrow> string" where
  "page_text (PageText s) = s"
| "page_text PageNone = ''''"
| "page_text (PageRaises e) = ''''"

definition nonblank :: "string \<Rightarrow> bool" where
  \<comment> \<open>a line with a character that is not white space\<close>
  "nonblank line = list_ex (\<lambda>c. \<not> isspace c) line"

definition stub_marker :: string where
  "stub_marker = ''Stub summary (Groq not configured):\<newline>''"

definition stub_summary_spec :: "string \<Rightarrow> string" where
  \<comment> \<open>the stub as the specification words it: the non-blank lines as they are\<close>
  "stub_summary_spec transcript =
     stub_marker @ join ''\<newline>'' (take 10 (filter nonblank (splitlines transcript)))"

definition stub_summary_trimmed :: "string \<Rightarrow> string" where
  \<comment> \<open>the same, every line trimmed\<close>
  "stub_summary_trimmed transcript =
     stub_marker @
     join ''\<newline>'' (take 10 (map strip (filter nonblank (splitlines transcript))))"

fun attempted :: "(event \<times> exn option) list \<Rightarrow> event list" where
  \<comment> \<open>the calls of a sequence that are made: all up to the first that raises\<close>
  "attempted [] = []"
| "attempted ((e, None) # rest) = e # attempted rest"
| "attempted ((e, Some x) # rest) = [e]"

text \<open>
  The parts of \<open>send_email_smtp\<close> by name: the calls of the \<open>try\<close> block, the
  connection that is opened, and the message that is built.
\<close>

definition session_steps :: "config \<Rightarrow> smtp_script \<Rightarrow> email \<Rightarrow> (event \<times> exn option) list" where
  "session_steps cfg net msg =
     [(Ehlo, ehlo_error net)] @
     (if SMTP_PORT cfg \<in> {587, 25} \<and> SMTP_PORT cfg \<noteq> 465
      then [(StartTLS, starttls_error net), (Ehlo, ehlo2_error net)]
      else []) @
     [(Login (SMTP_USERNAME cfg) (SMTP_PASSWORD cfg), login_error net),
      (SendMessage msg, send_error net)]"

definition connect_event :: "config \<Rightarrow> event" where
  "connect_event cfg =
     (if SMTP_PORT cfg = 465 then ConnectSSL (SMTP_HOST cfg) (SMTP_PORT cfg)
      else ConnectPlain (SMTP_HOST cfg) (SMTP_PORT cfg))"

definition the_message :: "config \<Rightarrow> string \<Rightarrow> string \<Rightarrow> string list \<Rightarrow> email" where
  "the_message cfg subject html_body recipients =
     \<lparr>msg_from = EMAIL_FROM cfg,
      msg_to = join '', '' recipients,
      msg_subject = subject,
      msg_content =
        ''This email contains an HTML summary. View with an HTML-capable mail client.'',
      msg_html = html_body\<rparr>"

section \<open>Sample inputs\<close>

definition demo_pages :: "page list" where
  "demo_pages =
     [PageText ''one'', PageRaises (LibraryError ''unreadable page''), PageNone, PageText ''four'']"

definition demo_libs :: libs where
  \<comment> \<open>file names that are used with it are left unchanged by \<open>secure_filename\<close>\<close>
  "demo_libs =
     \<lparr>secure_filename = (\<lambda>name. name),
      save_error = (\<lambda>path. None),
      read_text = (\<lambda>b. b),
      PdfReader = (\<lambda>b. Inr demo_pages),
      Document = (\<lambda>b. Inr [b]),
      chat_completion = (\<lambda>system user. Inr ''A summary.'')\<rparr>"

definition demo_world :: world where
  "demo_world = \<lparr>disk = Map.empty, trace = [], flashed = []\<rparr>"

definition demo_config :: "int \<Rightarrow> config" where
  \<comment> \<open>SMTP configured on the given port, no Groq key\<close>
  "demo_config port =
     \<lparr>GROQ_API_KEY = '''', SMTP_HOST = ''mail.example.com'', SMTP_PORT = port,
      SMTP_USERNAME = ''user'', SMTP_PASSWORD = ''secret'', EMAIL_FROM = ''user''\<rparr>"

definition all_succeed :: smtp_script where
  "all_succeed =
     \<lparr>compose_error = None, connect_error = None, ehlo_error = None, starttls_error = None,
      ehlo2_error = None, login_error = None, send_error = None, quit_error = None\<rparr>"

definition demo_request :: request where
  "demo_request = \<lparr>form = Map.empty, files = Map.empty, is_json = False, json = Map.empty\<rparr>"

section \<open>Proofs: recipient parser\<close>

declare split_on_runs.simps [simp del]

lemma accepts_empty_lang: "accepts_empty r \<longleftrightarrow> [] \<in> lang r"
proof (induction r)
  case (Many r)
  show ?case by (auto intro: exI[of _ "[]"])
qed auto

lemma many_head:
  assumes "set ws \<subseteq> L" and "concat ws = c # w"
  shows "\<exists>u vs. c # u \<in> L \<and> set vs \<subseteq> L \<and> w = u @ concat vs"
  using assms
proof (induction ws)
  case Nil
  then show ?case by simp
next
  case (Cons x xs)
  show ?case
  proof (cases x)
    case Nil
    with Cons show ?thesis by simp
  next
    case (Cons y ys)
    with Cons.prems have "c # ys \<in> L" "set xs \<subseteq> L" "w = ys @ concat xs" by auto
    then show ?thesis by blast
  qed
qed

lemma after_lang: "w \<in> lang (after c r) \<longleftrightarrow> c # w \<in> lang r"
proof (induction r arbitrary: w)
  case (Then r s)
  show ?case
  proof
    assume "w \<in> lang (after c (Then r s))"
    then consider (left) u v where "w = u @ v" "u \<in> lang (after c r)" "v \<in> lang s"
      | (right) "accepts_empty r" "w \<in> lang (after c s)"
      by (auto split: if_splits)
    then show "c # w \<in> lang (Then r s)"
    proof cases
      case left
      then have "c # u \<in> lang r" using Then.IH(1) by simp
      with left have "c # w = (c # u) @ v \<and> c # u \<in> lang r \<and> v \<in> lang s" by simp
      then show ?thesis by (simp del: append_Cons) blast
    next
      case right
      then have "[] \<in> lang r" "c # w \<in> lang s"
        using Then.IH(2) by (simp_all add: accepts_empty_lang)
      then have "c # w = [] @ (c # w) \<and> [] \<in> lang r \<and> c # w \<in> lang s" by simp
      then show ?thesis by (simp del: append_Nil) blast
    qed
  next
    assume "c # w \<in> lang (Then r s)"
    then obtain u v where uv: "c # w = u @ v" "u \<in> lang r" "v \<in> lang s" by auto
    show "w \<in> lang (after c (Then r s))"
    proof (cases u)
      case Nil
      with uv have "accepts_empty r" "w \<in> lang (after c s)"
        using Then.IH(2) by (simp_all add: accepts_empty_lang)
      then show ?thesis by simp
    next
      case (Cons a u')
      with uv have "a = c" "w = u' @ v" "u' \<in> lang (after c r)"
        using Then.IH(1) by simp_all
      with uv(3) have "\<exists>x y. w = x @ y \<and> x \<in> lang (after c r) \<and> y \<in> lang s" by blast
      then show ?thesis by auto
    qed
  qed
next
  case (Many r)
  show ?case
  proof
    assume "w \<in> lang (after c (Many r))"
    then obtain u vs where h: "w = u @ concat vs" "u \<in> lang (after c r)" "set vs \<subseteq> lang r"
      by auto
    then have "c # u \<in> lang r" using Many.IH by simp
    with h have "c # w = concat ((c # u) # vs) \<and> set ((c # u) # vs) \<subseteq> lang r" by simp
    then show "c # w \<in> lang (Many r)" by (simp del: concat.simps set_simps) blast
  next
    assume "c # w \<in> lang (Many r)"
    then obtain ws where "set ws \<subseteq> lang r" "concat ws = c # w" by auto
    from many_head[OF this] obtain u vs
      where "c # u \<in> lang r" "set vs \<subseteq> lang r" "w = u @ concat vs" by blast
    then have "u \<in> lang (after c r)" using Many.IH by simp
    with \<open>set vs \<subseteq> lang r\<close> \<open>w = u @ concat vs\<close>
    show "w \<in> lang (after c (Many r))" by auto
  qed
qed auto

lemma rx_matches_lang: "rx_matches r s \<longleftrightarrow> s \<in> lang r"
  by (induction s arbitrary: r) (simp_all add: accepts_empty_lang after_lang)

lemma lang_many_class: "lang (Many (Class p)) = {w. list_all p w}"
proof (intro set_eqI iffI)
  fix w assume "w \<in> lang (Many (Class p))"
  then obtain ws where ws: "w = concat ws" "set ws \<subseteq> {[c] | c. p c}" by auto
  have "list_all p (concat ws)" using ws(2)
    by (induction ws) auto
  with ws show "w \<in> {w. list_all p w}" by simp
next
  fix w assume "w \<in> {w. list_all p w}"
  then have "w = concat (map (\<lambda>c. [c]) w) \<and> set (map (\<lambda>c. [c]) w) \<subseteq> lang (Class p)"
    by (induction w) auto
  then show "w \<in> lang (Many (Class p))" by (simp only: lang.simps) blast
qed

lemma lang_one_or_more_class:
  "lang (OneOrMore (Class p)) = {w. w \<noteq> [] \<and> list_all p w}"
proof (intro set_eqI iffI)
  fix w assume "w \<in> lang (OneOrMore (Class p))"
  then show "w \<in> {w. w \<noteq> [] \<and> list_all p w}"
    unfolding OneOrMore_def lang.simps(5) lang_many_class by auto
next
  fix w assume "w \<in> {w. w \<noteq> [] \<and> list_all p w}"
  then obtain a v where "w = [a] @ v" "p a" "list_all p v" by (cases w) auto
  then have "w = [a] @ v \<and> [a] \<in> lang (Class p) \<and> v \<in> {w. list_all p w}" by simp
  then have "\<exists>u v. w = u @ v \<and> u \<in> lang (Class p) \<and> v \<in> {w. list_all p w}" by blast
  then show "w \<in> lang (OneOrMore (Class p))"
    unfolding OneOrMore_def lang.simps(5) lang_many_class by blast
qed

lemma lang_lit: "lang (Lit c) = {[c]}"
  by (auto simp: Lit_def)

lemma EMAIL_REGEX_shape: "rx_matches EMAIL_REGEX s \<longleftrightarrow> email_shape s"
  unfolding rx_matches_lang EMAIL_REGEX_def lang.simps(5) lang_one_or_more_class lang_lit
    email_shape_def
  by (auto; blast)

lemma split_on_runs_Nil: "split_on_runs sep [] = [[]]"
  by (simp add: split_on_runs.simps)

lemma split_on_runs_sep:
  "sep c \<Longrightarrow> split_on_runs sep (c # cs) = [] # split_on_runs sep (dropWhile sep cs)"
  by (subst split_on_runs.simps) simp

lemma split_on_runs_nonsep:
  "\<not> sep c \<Longrightarrow>
   split_on_runs sep (c # cs) =
     (c # hd (split_on_runs sep cs)) # tl (split_on_runs sep cs)"
  by (subst split_on_runs.simps, subst (2 3) split_on_runs.simps) (simp add: Let_def)

lemma split_on_runs_dropWhile_sep:
  "sep c \<Longrightarrow> dropWhile sep (c # cs) = dropWhile sep cs"
  by simp

lemma split_runs_from_eq:
  "split_runs_from sep True [] s = split_on_runs sep (dropWhile sep s) \<and>
   split_runs_from sep False cur s =
     (rev cur @ hd (split_on_runs sep s)) # tl (split_on_runs sep s)"
proof (induction s arbitrary: cur)
  case Nil
  show ?case by (simp add: split_on_runs_Nil)
next
  case (Cons c cs)
  show ?case
  proof (cases "sep c")
    case True
    then show ?thesis using Cons.IH by (simp add: split_on_runs_sep)
  next
    case False
    then show ?thesis using Cons.IH[of "c # cur"] Cons.IH[of "[c]"]
      by (simp add: split_on_runs_nonsep)
  qed
qed

lemma split_on_runs_nonempty: "split_on_runs sep s \<noteq> []"
  by (subst split_on_runs.simps) (simp add: Let_def)

lemma re_split_runs_eq: "re_split_runs sep s = split_on_runs sep s"
  using split_runs_from_eq[of sep s "[]"] split_on_runs_nonempty[of sep s]
  by (simp add: re_split_runs_def)

lemma strip_last_not_space: "strip p \<noteq> [] \<Longrightarrow> \<not> isspace (last (strip p))"
  unfolding strip_def
  by (simp add: last_rev hd_dropWhile)

lemma match_to_end_stripped:
  assumes "strip p \<noteq> []"
  shows "match_to_end EMAIL_REGEX (strip p) \<longleftrightarrow> email_shape (strip p)"
proof -
  have "last (strip p) \<noteq> CHR 0x0A"
    using strip_last_not_space[OF assms] by (auto simp: isspace_def)
  then show ?thesis by (simp add: match_to_end_def EMAIL_REGEX_shape)
qed

lemma parse_recipients_refines: "parse_recipients raw = parse_recipients_spec raw"
proof (cases raw)
  case None
  then show ?thesis by (simp add: parse_recipients_def parse_recipients_spec_def)
next
  case (Some s)
  let ?parts = "split_on_runs recipient_sep s"
  have a: "map strip (filter (\<lambda>p. strip p \<noteq> []) ?parts) = filter (\<lambda>t. t \<noteq> []) (map strip ?parts)"
    by (simp add: filter_map comp_def)
  have b: "filter (match_to_end EMAIL_REGEX) (filter (\<lambda>t. t \<noteq> []) (map strip ?parts))
         = filter email_shape (filter (\<lambda>t. t \<noteq> []) (map strip ?parts))"
    by (rule filter_cong) (auto simp: match_to_end_stripped)
  show ?thesis
  proof (cases "s = []")
    case True
    with Some show ?thesis
      by (simp add: parse_recipients_def parse_recipients_spec_def split_on_runs_Nil strip_def)
  next
    case False
    with Some have "parse_recipients raw =
        filter (match_to_end EMAIL_REGEX)
          (map strip (filter (\<lambda>p. strip p \<noteq> []) (re_split_runs recipient_sep s)))"
      by (simp add: parse_recipients_def)
    also have "\<dots> = filter email_shape (filter (\<lambda>t. t \<noteq> []) (map strip ?parts))"
      by (simp only: re_split_runs_eq a b)
    also have "\<dots> = parse_recipients_spec raw"
      using Some by (simp add: parse_recipients_spec_def)
    finally show ?thesis .
  qed
qed

lemmas recipient_code =
  parse_recipients_def re_split_runs_def recipient_sep_def strip_def isspace_def
  match_to_end_def EMAIL_REGEX_def OneOrMore_def Lit_def not_at_space_def

text \<open>
  C1: \<open>parse_recipients\<close> meets its contract. For every input it returns what the
  contract \<open>parse_recipients_spec\<close> says: nothing for \<open>None\<close>; otherwise the input is split
  on the runs of comma, semicolon, newline and carriage return, every field is trimmed,
  the empty fields are dropped, and exactly the fields of the shape
  \<open>local@domain.tld\<close> are kept, in their order and with their repetitions. The empty
  string gives the empty list, and the example of the specification gives its three
  addresses.
\<close>

theorem parse_recipients_contract:
  "parse_recipients raw = parse_recipients_spec raw \<and>
   parse_recipients None = [] \<and>
   parse_recipients (Some '''') = [] \<and>
   parse_recipients (Some ''a@b.com, c@d.com; bad-email\<newline>e@f.co'') =
     [''a@b.com'', ''c@d.com'', ''e@f.co'']"
proof -
  have "parse_recipients (Some ''a@b.com, c@d.com; bad-email\<newline>e@f.co'') =
     [''a@b.com'', ''c@d.com'', ''e@f.co'']"
    by (simp add: recipient_code)
  moreover have "parse_recipients None = []" "parse_recipients (Some '''') = []"
    by (simp_all add: parse_recipients_def)
  ultimately show ?thesis
    using parse_recipients_refines by simp
qed

theorem parse_recipients_contract_witness:
  "parse_recipients_spec (Some ''x@y.z;;x@y.z, q'') = [''x@y.z'', ''x@y.z'']"
proof -
  have "parse_recipients (Some ''x@y.z;;x@y.z, q'') = [''x@y.z'', ''x@y.z'']"
    by (simp add: recipient_code)
  then show ?thesis
    using parse_recipients_contract [of "Some ''x@y.z;;x@y.z, q''"] by simp
qed

section \<open>Proofs: file text extractor\<close>

lemmas lower_code = lower_def lower_char_def upper_chars_def lower_chars_def

lemma item_rsplit1:
  "item (rsplit1 (CHR ''.'') p) (Suc 0) =
     (if CHR ''.'' \<in> set p then Inr (rev (takeWhile (\<lambda>c. c \<noteq> CHR ''.'') (rev p)))
      else Inl IndexError)"
  by (simp add: item_def rsplit1_def)

lemma lower_extension:
  "lower (rev (takeWhile (\<lambda>c. c \<noteq> CHR ''.'') (rev p))) = extension p"
  by (simp add: extension_def)

lemma pdf_pages_loop_eq:
  "pdf_pages_loop pages acc = acc @ map page_text (filter page_extracts pages)"
  by (induction pages acc rule: pdf_pages_loop.induct) simp_all

lemma allowed_file_eq: "allowed_file name = Inr (has_allowed_extension name)"
  by (simp add: allowed_file_def has_allowed_extension_def item_rsplit1 lower_extension)

text \<open>
  The path that \<open>generate\<close> hands to the extractor has a dot and an allowed
  extension, since the file name passed \<open>allowed_file\<close>: there the final
  \<open>return ""\<close> and the \<open>IndexError\<close> of the extractor are out of reach.
\<close>

lemma extension_append:
  "CHR ''.'' \<in> set name \<Longrightarrow> extension (dir @ name) = extension name"
proof -
  assume "CHR ''.'' \<in> set name"
  then have "CHR ''.'' \<in> set (rev name)" by simp
  then have "takeWhile (\<lambda>c. c \<noteq> CHR ''.'') (rev name @ rev dir) =
             takeWhile (\<lambda>c. c \<noteq> CHR ''.'') (rev name)"
    by (intro takeWhile_append1[where x = "CHR ''.''"]) simp_all
  then show ?thesis by (simp add: extension_def)
qed

lemma upload_path_extension:
  assumes "has_allowed_extension name"
  shows "CHR ''.'' \<in> set (os_path_join UPLOAD_FOLDER name) \<and>
         extension (os_path_join UPLOAD_FOLDER name) \<in> ALLOWED_EXTENSIONS"
proof -
  from assms have dot: "CHR ''.'' \<in> set name" and ext: "extension name \<in> ALLOWED_EXTENSIONS"
    by (simp_all add: has_allowed_extension_def)
  have "os_path_join UPLOAD_FOLDER name = name \<or>
        os_path_join UPLOAD_FOLDER name = UPLOAD_FOLDER @ name \<or>
        os_path_join UPLOAD_FOLDER name = (UPLOAD_FOLDER @ ''/'') @ name"
    by (simp add: os_path_join_def)
  with dot ext show ?thesis
    by (auto simp: extension_append simp del: append_assoc)
qed

text \<open>
  C4, as amended: for every file path that contains a dot and whose extension (the part
  after the last dot, lowercased) is not one of txt, pdf and docx,
  \<open>extract_text_from_file\<close> returns the empty string and raises nothing.
\<close>

theorem extract_unsupported_extension:
  assumes "CHR ''.'' \<in> set filepath" and "extension filepath \<notin> ALLOWED_EXTENSIONS"
  shows "extract_text_from_file l fs filepath = Inr ''''"
  using assms
  by (simp add: extract_text_from_file_def item_rsplit1 lower_extension ALLOWED_EXTENSIONS_def
      Let_def)

theorem extract_unsupported_extension_witness:
  "CHR ''.'' \<in> set ''uploads/notes.md'' \<and>
   extension ''uploads/notes.md'' \<notin> ALLOWED_EXTENSIONS \<and>
   extract_text_from_file demo_libs (disk demo_world) ''uploads/notes.md'' = Inr ''''"
proof -
  have a: "CHR ''.'' \<in> set ''uploads/notes.md''" by simp
  have b: "extension ''uploads/notes.md'' \<notin> ALLOWED_EXTENSIONS"
    by (simp add: extension_def lower_code ALLOWED_EXTENSIONS_def)
  show ?thesis
    using a b extract_unsupported_extension [OF a b, of demo_libs "disk demo_world"] by simp
qed

text \<open>
  C4 as it is stated fails on a path without a dot: the extension of \<open>README\<close> is not
  one of the three, and the extractor raises \<open>IndexError\<close> on it.
\<close>

theorem extract_unsupported_extension_counterexample:
  "extension ''README'' \<notin> ALLOWED_EXTENSIONS \<and>
   extract_text_from_file demo_libs (disk demo_world) ''README'' = Inl IndexError"
  by (simp add: extract_text_from_file_def item_rsplit1 extension_def lower_code
      ALLOWED_EXTENSIONS_def)

text \<open>
  C5: for a PDF that opens, whatever pages fail, \<open>extract_text_from_file\<close> raises
  nothing and returns the texts of the pages whose extraction succeeds, in the order of
  the document, joined by newlines; the failing pages are skipped. (A page for which the
  library returns no text counts as the empty text.)
\<close>

theorem extract_pdf_skips_failing_pages:
  assumes "CHR ''.'' \<in> set filepath" and "extension filepath = ''pdf''"
    and "fs filepath = Some b" and "PdfReader l b = Inr pages"
  shows "extract_text_from_file l fs filepath =
         Inr (join ''\<newline>'' (map page_text (filter page_extracts pages)))"
  using assms
  by (simp add: extract_text_from_file_def item_rsplit1 lower_extension Let_def open_file_def
      pdf_pages_loop_eq)

theorem extract_pdf_skips_failing_pages_witness:
  "CHR ''.'' \<in> set ''uploads/talk.PDF'' \<and>
   extension ''uploads/talk.PDF'' = ''pdf'' \<and>
   PdfReader demo_libs ''%PDF'' =
     Inr [PageText ''one'', PageRaises (LibraryError ''unreadable page''), PageNone,
          PageText ''four''] \<and>
   extract_text_from_file demo_libs [''uploads/talk.PDF'' \<mapsto> ''%PDF''] ''uploads/talk.PDF'' =
     Inr ''one\<newline>\<newline>four''"
proof -
  have a: "CHR ''.'' \<in> set ''uploads/talk.PDF''" by simp
  have b: "extension ''uploads/talk.PDF'' = ''pdf''"
    by (simp add: extension_def lower_code)
  have c: "[''uploads/talk.PDF'' \<mapsto> ''%PDF''] ''uploads/talk.PDF'' = Some ''%PDF''" by simp
  have d: "PdfReader demo_libs ''%PDF'' = Inr demo_pages" by (simp add: demo_libs_def)
  show ?thesis
    using a b d
      extract_pdf_skips_failing_pages
        [where fs = "[''uploads/talk.PDF'' \<mapsto> ''%PDF'']" and l = demo_libs
           and filepath = "''uploads/talk.PDF''" and b = "''%PDF''" and pages = demo_pages,
         OF a b c d]
    by (simp add: demo_pages_def)
qed

section \<open>Proofs: mail sender\<close>

lemma emit_fields [simp]:
  "trace (emit e w) = trace w @ [e]" "disk (emit e w) = disk w" "flashed (emit e w) = flashed w"
  by (simp_all add: emit_def)

lemma flash_fields [simp]:
  "trace (flash m w) = trace w" "disk (flash m w) = disk w" "flashed (flash m w) = flashed w @ [m]"
  by (simp_all add: flash_def)

lemma new_events_same [simp]: "new_events w w = []"
  by (simp add: new_events_def)

lemma new_events_append: "trace w' = trace w @ evs \<Longrightarrow> new_events w w' = evs"
  by (simp add: new_events_def)

lemma run_steps_world:
  "trace (snd (run_steps steps w)) = trace w @ attempted steps \<and>
   disk (snd (run_steps steps w)) = disk w \<and>
   flashed (snd (run_steps steps w)) = flashed w"
  by (induction steps w rule: run_steps.induct) simp_all

lemma send_email_smtp_events:
  assumes "SMTP_HOST cfg \<noteq> []" "SMTP_USERNAME cfg \<noteq> []" "SMTP_PASSWORD cfg \<noteq> []"
    and "compose_error net = None"
  shows "new_events w (snd (send_email_smtp cfg net subject html_body recipients w)) =
         connect_event cfg #
         (case connect_error net of
            Some e \<Rightarrow> []
          | None \<Rightarrow>
              attempted (session_steps cfg net (the_message cfg subject html_body recipients))
              @ [Quit])"
  using assms run_steps_world[of "session_steps cfg net (the_message cfg subject html_body recipients)"
      "emit (connect_event cfg) w"]
  by (auto simp: send_email_smtp_def Let_def session_steps_def connect_event_def the_message_def
      intro!: new_events_append split: option.splits prod.splits)

lemma attempted_Cons:
  "attempted ((e, x) # rest) = e # (case x of None \<Rightarrow> attempted rest | Some y \<Rightarrow> [])"
  by (cases x) simp_all

text \<open>
  C3: when the SMTP host, the user name or the password is empty, \<open>send_email_smtp\<close>
  raises the configuration error at once, for every subject, body and list of
  recipients: the world is returned as it was, so nothing was connected, recorded or
  written.
\<close>

theorem send_email_smtp_unconfigured:
  assumes "SMTP_HOST cfg = [] \<or> SMTP_USERNAME cfg = [] \<or> SMTP_PASSWORD cfg = []"
  shows "send_email_smtp cfg net subject html_body recipients w =
           (Inl (RuntimeError
                  ''SMTP not configured. Set SMTP_HOST, SMTP_USERNAME, SMTP_PASSWORD.''), w) \<and>
         new_events w (snd (send_email_smtp cfg net subject html_body recipients w)) = []"
  using assms by (auto simp: send_email_smtp_def)

theorem send_email_smtp_unconfigured_witness:
  "SMTP_PASSWORD ((demo_config 587)\<lparr>SMTP_PASSWORD := ''''\<rparr>) = [] \<and>
   send_email_smtp ((demo_config 587)\<lparr>SMTP_PASSWORD := ''''\<rparr>) all_succeed
       ''Notes'' ''<p>hello</p>'' [''a@b.com''] demo_world =
     (Inl (RuntimeError ''SMTP not configured. Set SMTP_HOST, SMTP_USERNAME, SMTP_PASSWORD.''),
      demo_world)"
proof -
  have h: "SMTP_HOST ((demo_config 587)\<lparr>SMTP_PASSWORD := ''''\<rparr>) = [] \<or>
           SMTP_USERNAME ((demo_config 587)\<lparr>SMTP_PASSWORD := ''''\<rparr>) = [] \<or>
           SMTP_PASSWORD ((demo_config 587)\<lparr>SMTP_PASSWORD := ''''\<rparr>) = []"
    by simp
  show ?thesis
    using send_email_smtp_unconfigured [OF h, of all_succeed "''Notes''" "''<p>hello</p>''"
        "[''a@b.com'']" demo_world]
    by simp
qed

text \<open>
  C7: when SMTP is configured and the message is built, the first thing
  \<open>send_email_smtp\<close> does is to open a connection, with implicit TLS if the port is 465
  and plain for any other port. STARTTLS is only ever issued for the ports 587 and 25;
  once the connection and the first EHLO have succeeded it is issued exactly for these
  ports; and whenever the run reaches the login, what came before it is the connection,
  EHLO and, exactly for the ports 587 and 25, STARTTLS followed by a second EHLO.
\<close>

theorem smtp_connection_strategy:
  assumes "SMTP_HOST cfg \<noteq> []" and "SMTP_USERNAME cfg \<noteq> []" and "SMTP_PASSWORD cfg \<noteq> []"
    and "compose_error net = None"
  shows
    "let evs = new_events w (snd (send_email_smtp cfg net subject html_body recipients w));
         connection = (if SMTP_PORT cfg = 465 then ConnectSSL (SMTP_HOST cfg) (SMTP_PORT cfg)
                       else ConnectPlain (SMTP_HOST cfg) (SMTP_PORT cfg));
         login = Login (SMTP_USERNAME cfg) (SMTP_PASSWORD cfg)
     in evs \<noteq> [] \<and> hd evs = connection \<and>
        (StartTLS \<in> set evs \<longrightarrow> SMTP_PORT cfg \<in> {587, 25}) \<and>
        (connect_error net = None \<and> ehlo_error net = None \<longrightarrow>
           (StartTLS \<in> set evs \<longleftrightarrow> SMTP_PORT cfg \<in> {587, 25})) \<and>
        (login \<in> set evs \<longrightarrow>
           takeWhile (\<lambda>e. e \<noteq> login) evs =
             connection # Ehlo #
             (if SMTP_PORT cfg \<in> {587, 25} then [StartTLS, Ehlo] else []))"
proof -
  let ?steps = "session_steps cfg net (the_message cfg subject html_body recipients)"
  let ?login = "Login (SMTP_USERNAME cfg) (SMTP_PASSWORD cfg)"
  have evs: "new_events w (snd (send_email_smtp cfg net subject html_body recipients w)) =
      connect_event cfg #
      (case connect_error net of Some e \<Rightarrow> [] | None \<Rightarrow> attempted ?steps @ [Quit])"
    using assms by (rule send_email_smtp_events)
  have a: "StartTLS \<in> set (attempted ?steps) \<longrightarrow> SMTP_PORT cfg \<in> {587, 25}"
    by (auto simp: session_steps_def attempted_Cons split: option.splits)
  have b: "ehlo_error net = None \<longrightarrow>
      (StartTLS \<in> set (attempted ?steps) \<longleftrightarrow> SMTP_PORT cfg \<in> {587, 25})"
    by (auto simp: session_steps_def attempted_Cons split: option.splits)
  have c: "?login \<in> set (attempted ?steps) \<longrightarrow>
      takeWhile (\<lambda>e. e \<noteq> ?login) (attempted ?steps @ [Quit]) =
        Ehlo # (if SMTP_PORT cfg \<in> {587, 25} then [StartTLS, Ehlo] else [])"
    by (auto simp: session_steps_def attempted_Cons split: option.splits)
  show ?thesis
    unfolding Let_def evs using a b c
    by (auto simp: connect_event_def split: option.splits)
qed

theorem smtp_connection_strategy_witness:
  "SMTP_HOST (demo_config 587) \<noteq> [] \<and> SMTP_USERNAME (demo_config 587) \<noteq> [] \<and>
   SMTP_PASSWORD (demo_config 587) \<noteq> [] \<and> compose_error all_succeed = None \<and>
   Login ''user'' ''secret'' \<in> set (new_events demo_world
     (snd (send_email_smtp (demo_config 587) all_succeed ''Notes'' ''<p>hello</p>'' [''a@b.com'']
        demo_world))) \<and>
   takeWhile (\<lambda>e. e \<noteq> Login ''user'' ''secret'')
     (new_events demo_world
       (snd (send_email_smtp (demo_config 587) all_succeed ''Notes'' ''<p>hello</p>'' [''a@b.com'']
          demo_world))) =
     [ConnectPlain ''mail.example.com'' 587, Ehlo, StartTLS, Ehlo]"
proof -
  have h: "SMTP_HOST (demo_config 587) \<noteq> []" "SMTP_USERNAME (demo_config 587) \<noteq> []"
    "SMTP_PASSWORD (demo_config 587) \<noteq> []" "compose_error all_succeed = None"
    by (simp_all add: demo_config_def all_succeed_def)
  have l: "Login ''user'' ''secret'' \<in> set (new_events demo_world
     (snd (send_email_smtp (demo_config 587) all_succeed ''Notes'' ''<p>hello</p>'' [''a@b.com'']
        demo_world)))"
    by (simp add: send_email_smtp_def demo_config_def all_succeed_def demo_world_def
        new_events_def emit_def Let_def)
  have c: "SMTP_PORT (demo_config 587) = 587" "SMTP_USERNAME (demo_config 587) = ''user''"
    "SMTP_PASSWORD (demo_config 587) = ''secret''" "SMTP_HOST (demo_config 587) = ''mail.example.com''"
    by (simp_all add: demo_config_def)
  show ?thesis
    using h l
      smtp_connection_strategy [OF h, of demo_world "''Notes''" "''<p>hello</p>''" "[''a@b.com'']"]
    by (simp add: Let_def c)
qed

section \<open>Proofs: route handlers\<close>

lemma strip_empty_iff: "strip s = [] \<longleftrightarrow> (\<forall>c \<in> set s. isspace c)"
proof
  assume "strip s = []"
  then have all: "\<forall>c \<in> set (dropWhile isspace s). isspace c"
    by (simp add: strip_def dropWhile_eq_Nil_conv)
  have "dropWhile isspace s = []"
  proof (rule ccontr)
    assume "dropWhile isspace s \<noteq> []"
    then have "hd (dropWhile isspace s) \<in> set (dropWhile isspace s)"
      and "\<not> isspace (hd (dropWhile isspace s))"
      by (simp_all add: hd_dropWhile)
    with all show False by blast
  qed
  then show "\<forall>c \<in> set s. isspace c" by (simp add: dropWhile_eq_Nil_conv)
next
  assume "\<forall>c \<in> set s. isspace c"
  then have "dropWhile isspace s = []" by (simp only: dropWhile_eq_Nil_conv)
  then have "strip s = rev (dropWhile isspace (rev []))" unfolding strip_def by (simp only:)
  then show "strip s = []" by simp
qed

lemma strip_nonempty_nonblank: "(strip s \<noteq> []) = nonblank s"
  by (simp add: strip_empty_iff nonblank_def list_ex_iff)

lemma stub_summary_eq: "stub_summary t = stub_summary_trimmed t"
  by (simp add: stub_summary_def stub_summary_trimmed_def stub_marker_def strip_nonempty_nonblank)

lemma generate_summary_trace:
  "\<exists>evs. trace (snd (generate_summary cfg l prompt transcript w)) = trace w @ evs \<and>
         disk (snd (generate_summary cfg l prompt transcript w)) = disk w"
  by (auto simp: generate_summary_def Let_def split: sum.splits)

lemmas splitlines_code = splitlines_def is_linebreak_def

lemmas stub_code =
  stub_summary_def stub_summary_spec_def stub_summary_trimmed_def stub_marker_def
  splitlines_code nonblank_def strip_def isspace_def

text \<open>
  C2, as amended: when no Groq key is configured, for every instruction and every
  non-empty transcript the handler renders the stub summary: the non-blank lines of the
  transcript in their order, each trimmed of leading and trailing white space, at most
  the first ten of them, joined by newlines, after the fixed marker.
\<close>

theorem stub_summary_when_unconfigured:
  assumes "GROQ_API_KEY cfg = []" and "transcript \<noteq> []"
  shows "generate_summary cfg l prompt transcript w =
           (RenderTemplate ''result.html''
              [(''summary'', stub_summary_trimmed transcript), (''prompt'', prompt),
               (''transcript'', transcript)], w)"
  using assms by (simp add: generate_summary_def stub_summary_eq)

theorem stub_summary_when_unconfigured_witness:
  "GROQ_API_KEY (demo_config 587) = [] \<and>
   generate_summary (demo_config 587) demo_libs ''Summarise''
       ''line1\<newline>\<newline>line2\<newline>line3'' demo_world =
     (RenderTemplate ''result.html''
        [(''summary'', ''Stub summary (Groq not configured):\<newline>line1\<newline>line2\<newline>line3''),
         (''prompt'', ''Summarise''),
         (''transcript'', ''line1\<newline>\<newline>line2\<newline>line3'')], demo_world)"
proof -
  have a: "GROQ_API_KEY (demo_config 587) = []" by (simp add: demo_config_def)
  have b: "''line1\<newline>\<newline>line2\<newline>line3'' \<noteq> []" by simp
  have c: "stub_summary_trimmed ''line1\<newline>\<newline>line2\<newline>line3'' =
      ''Stub summary (Groq not configured):\<newline>line1\<newline>line2\<newline>line3''"
    by (simp add: stub_code)
  show ?thesis
    using a
      stub_summary_when_unconfigured
        [OF a b, where l = demo_libs and prompt = "''Summarise''" and w = demo_world]
    by (simp add: c)
qed

text \<open>
  C2 as it is stated fails on a line that begins with a blank: the specification keeps
  the line as it is, the handler trims it.
\<close>

theorem stub_summary_when_unconfigured_counterexample:
  "stub_summary_spec ''x\<newline> y'' = ''Stub summary (Groq not configured):\<newline>x\<newline> y'' \<and>
   generate_summary (demo_config 587) demo_libs ''Summarise'' ''x\<newline> y'' demo_world =
     (RenderTemplate ''result.html''
        [(''summary'', ''Stub summary (Groq not configured):\<newline>x\<newline>y''),
         (''prompt'', ''Summarise''), (''transcript'', ''x\<newline> y'')], demo_world)"
  by (simp add: generate_summary_def demo_config_def stub_code)

text \<open>
  C6: when the recipients field of a request to \<open>/send_email\<close> parses to no valid
  address, the handler answers a JSON request with status 400 and the body
  \<open>{"ok": false, "error": "No valid recipient emails."}\<close> and a form request with a
  redirect to the input page and that notice; the world is otherwise untouched, so the
  mail sender is not called. Whenever the handler does call into the mail libraries, the
  recipients field held at least one token of the address shape.
\<close>

theorem send_email_no_recipients:
  "(parse_recipients (data_get req ''recipients'' (Some '''')) = [] \<longrightarrow>
      send_email cfg net req w =
        (if is_json req
         then (Jsonify 400 [(''ok'', JBool False), (''error'', JString ''No valid recipient emails.'')], w)
         else (Redirect ''index'', flash ''No valid recipient emails.'' w))) \<and>
   (new_events w (snd (send_email cfg net req w)) \<noteq> [] \<longrightarrow>
      (\<exists>e \<in> set (parse_recipients (data_get req ''recipients'' (Some ''''))). email_shape e))"
proof (cases "parse_recipients (data_get req ''recipients'' (Some '''')) = []")
  case True
  then show ?thesis by (simp add: send_email_def Let_def new_events_def)
next
  case False
  then obtain e where e: "e \<in> set (parse_recipients (data_get req ''recipients'' (Some '''')))"
    by (cases "parse_recipients (data_get req ''recipients'' (Some ''''))") auto
  then have "email_shape e"
    by (auto simp: parse_recipients_refines parse_recipients_spec_def split: option.splits)
  with e False show ?thesis by auto
qed

theorem send_email_no_recipients_witness:
  "parse_recipients
     (data_get (demo_request\<lparr>is_json := True, json := [''recipients'' \<mapsto> Some ''not-an-email'']\<rparr>)
        ''recipients'' (Some '''')) = [] \<and>
   send_email (demo_config 465) all_succeed
       (demo_request\<lparr>is_json := True, json := [''recipients'' \<mapsto> Some ''not-an-email'']\<rparr>)
       demo_world =
     (Jsonify 400 [(''ok'', JBool False), (''error'', JString ''No valid recipient emails.'')],
      demo_world) \<and>
   new_events demo_world
     (snd (send_email (demo_config 465) all_succeed
             (demo_request\<lparr>form := [''recipients'' \<mapsto> ''a@b.com'']\<rparr>) demo_world)) \<noteq> [] \<and>
   email_shape ''a@b.com''"
proof -
  let ?bad = "demo_request\<lparr>is_json := True, json := [''recipients'' \<mapsto> Some ''not-an-email'']\<rparr>"
  let ?good = "demo_request\<lparr>form := [''recipients'' \<mapsto> ''a@b.com'']\<rparr>"
  have form: "\<not> is_json demo_request" by (simp add: demo_request_def)
  have bad: "parse_recipients (data_get ?bad ''recipients'' (Some '''')) = []"
    by (simp add: data_get_def recipient_code)
  have one: "parse_recipients (Some ''a@b.com'') = [''a@b.com'']"
    by (simp add: recipient_code)
  have good: "parse_recipients (data_get ?good ''recipients'' (Some '''')) = [''a@b.com'']"
    by (simp add: data_get_def form one)
  have sent: "new_events demo_world
      (snd (send_email (demo_config 465) all_succeed ?good demo_world)) \<noteq> []"
    by (simp add: send_email_def one form Let_def data_get_def or_else_def
        send_email_smtp_def demo_config_def all_succeed_def new_events_def demo_world_def
        emit_def flash_def)
  have "send_email (demo_config 465) all_succeed ?bad demo_world =
     (Jsonify 400 [(''ok'', JBool False), (''error'', JString ''No valid recipient emails.'')],
      demo_world)"
    using bad
      send_email_no_recipients
        [where req = ?bad and cfg = "demo_config 465" and net = all_succeed and w = demo_world]
    by simp
  moreover have "email_shape ''a@b.com''"
    using sent
      send_email_no_recipients
        [where req = ?good and cfg = "demo_config 465" and net = all_succeed and w = demo_world]
    by (simp add: good)
  ultimately show ?thesis using bad sent by simp
qed

text \<open>
  C8: for a request to \<open>/generate\<close> with an uploaded file of non-empty name, a
  sanitized name without an extension in \<open>{txt, pdf, docx}\<close> gives the redirect with
  the notice and leaves the disk and the record of calls as they were: the file is
  neither written nor passed to the extractor. So the disk changes or a call is made
  only for an allowed extension; and then, when the save succeeds, the file is written
  under the upload folder and the extractor is called on that path next.
\<close>

theorem generate_upload_gate:
  assumes "files req ''transcript_file'' = Some file" and "filename file \<noteq> []"
  shows
    "let name = secure_filename l (filename file);
         save_path = os_path_join UPLOAD_FOLDER name;
         w' = snd (generate cfg l req w)
     in (\<not> has_allowed_extension name \<longrightarrow>
           generate cfg l req w =
             (Redirect ''index'', flash ''Only .txt, .pdf, and .docx files are supported.'' w)) \<and>
        (disk w' \<noteq> disk w \<or> new_events w w' \<noteq> [] \<longrightarrow> has_allowed_extension name) \<and>
        (has_allowed_extension name \<and> save_error l save_path = None \<longrightarrow>
           disk w' = (disk w)(save_path \<mapsto> content file) \<and>
           take 2 (new_events w w') = [FileSaved save_path, ExtractorCalled save_path])"
proof -
  let ?name = "secure_filename l (filename file)"
  let ?path = "os_path_join UPLOAD_FOLDER ?name"
  let ?w2 = "emit (ExtractorCalled ?path)
               (emit (FileSaved ?path) (w\<lparr>disk := (disk w)(?path \<mapsto> content file)\<rparr>))"
  have rejected: "generate cfg l req w =
      (Redirect ''index'', flash ''Only .txt, .pdf, and .docx files are supported.'' w)"
    if "\<not> has_allowed_extension ?name"
    using assms that by (simp add: generate_def Let_def allowed_file_eq)
  have accepted: "disk (snd (generate cfg l req w)) = (disk w)(?path \<mapsto> content file) \<and>
      take 2 (new_events w (snd (generate cfg l req w))) = [FileSaved ?path, ExtractorCalled ?path]"
    if ok: "has_allowed_extension ?name" and saved: "save_error l ?path = None"
  proof (cases "extract_text_from_file l (disk ?w2) ?path")
    case (Inl e)
    with assms ok saved have "generate cfg l req w = (ServerError e, ?w2)"
      by (simp add: generate_def Let_def allowed_file_eq)
    then show ?thesis by (simp add: new_events_def)
  next
    case (Inr t)
    with assms ok saved have g: "generate cfg l req w =
        generate_summary cfg l (strip (form_get req ''prompt'' '''')) t ?w2"
      by (simp add: generate_def Let_def allowed_file_eq)
    obtain evs where
      "trace (snd (generate_summary cfg l (strip (form_get req ''prompt'' '''')) t ?w2)) =
         trace ?w2 @ evs"
      "disk (snd (generate_summary cfg l (strip (form_get req ''prompt'' '''')) t ?w2)) = disk ?w2"
      using generate_summary_trace by blast
    with g show ?thesis by (simp add: new_events_def)
  qed
  have unchanged: "disk (snd (generate cfg l req w)) = disk w \<and>
      new_events w (snd (generate cfg l req w)) = []"
    if "\<not> has_allowed_extension ?name"
    using rejected[OF that] by (simp add: new_events_def)
  show ?thesis
    unfolding Let_def using rejected accepted unchanged by blast
qed

theorem generate_upload_gate_witness:
  "\<not> has_allowed_extension ''notes.exe'' \<and>
   generate (demo_config 587) demo_libs
       (demo_request\<lparr>files := [''transcript_file'' \<mapsto> \<lparr>filename = ''notes.exe'', content = ''MZ''\<rparr>]\<rparr>)
       demo_world =
     (Redirect ''index'', flash ''Only .txt, .pdf, and .docx files are supported.'' demo_world) \<and>
   has_allowed_extension ''notes.TXT'' \<and>
   take 2 (new_events demo_world (snd (generate (demo_config 587) demo_libs
       (demo_request\<lparr>files := [''transcript_file'' \<mapsto> \<lparr>filename = ''notes.TXT'', content = ''hello''\<rparr>]\<rparr>)
       demo_world))) =
     [FileSaved ''uploads/notes.TXT'', ExtractorCalled ''uploads/notes.TXT'']"
proof -
  let ?exe = "\<lparr>filename = ''notes.exe'', content = ''MZ''\<rparr>"
  let ?txt = "\<lparr>filename = ''notes.TXT'', content = ''hello''\<rparr>"
  let ?r1 = "demo_request\<lparr>files := [''transcript_file'' \<mapsto> ?exe]\<rparr>"
  let ?r2 = "demo_request\<lparr>files := [''transcript_file'' \<mapsto> ?txt]\<rparr>"
  have f1: "files ?r1 ''transcript_file'' = Some ?exe" "filename ?exe \<noteq> []" by simp_all
  have f2: "files ?r2 ''transcript_file'' = Some ?txt" "filename ?txt \<noteq> []" by simp_all
  have no: "\<not> has_allowed_extension ''notes.exe''"
    by (simp add: has_allowed_extension_def extension_def lower_code ALLOWED_EXTENSIONS_def)
  have yes: "has_allowed_extension ''notes.TXT''"
    by (simp add: has_allowed_extension_def extension_def lower_code ALLOWED_EXTENSIONS_def)
  have lib: "secure_filename demo_libs ''notes.exe'' = ''notes.exe''"
    "secure_filename demo_libs ''notes.TXT'' = ''notes.TXT''"
    "save_error demo_libs ''uploads/notes.TXT'' = None"
    "os_path_join UPLOAD_FOLDER ''notes.TXT'' = ''uploads/notes.TXT''"
    by (simp_all add: demo_libs_def os_path_join_def UPLOAD_FOLDER_def)
  show ?thesis
    using no yes
      generate_upload_gate
        [OF f1, where l = demo_libs and cfg = "demo_config 587" and w = demo_world]
      generate_upload_gate
        [OF f2, where l = demo_libs and cfg = "demo_config 587" and w = demo_world]
    by (simp add: Let_def lib)
qed

text \<open>
  C9: a request to \<open>/generate\<close> with no uploaded file, or one with an empty file name,
  and with a pasted text that is empty after trimming is redirected to the input page
  with the notice that asks for a transcript; no call is recorded, so the summarization
  client is not invoked.
\<close>

theorem generate_missing_transcript:
  assumes "files req ''transcript_file'' = None \<or>
           (\<exists>file. files req ''transcript_file'' = Some file \<and> filename file = [])"
    and "strip (form_get req ''transcript_text'' '''') = []"
  shows "generate cfg l req w =
           (Redirect ''index'', flash ''Please upload or paste a transcript.'' w) \<and>
         new_events w (snd (generate cfg l req w)) = []"
  using assms by (auto simp: generate_def generate_summary_def Let_def new_events_def)

theorem generate_missing_transcript_witness:
  "files (demo_request\<lparr>form := [''transcript_text'' \<mapsto> ''  '']\<rparr>) ''transcript_file'' = None \<and>
   strip (form_get (demo_request\<lparr>form := [''transcript_text'' \<mapsto> ''  '']\<rparr>)
            ''transcript_text'' '''') = [] \<and>
   generate ((demo_config 587)\<lparr>GROQ_API_KEY := ''key''\<rparr>) demo_libs
       (demo_request\<lparr>form := [''transcript_text'' \<mapsto> ''  '']\<rparr>) demo_world =
     (Redirect ''index'', flash ''Please upload or paste a transcript.'' demo_world)"
proof -
  let ?r = "demo_request\<lparr>form := [''transcript_text'' \<mapsto> ''  '']\<rparr>"
  have a: "files ?r ''transcript_file'' = None \<or>
           (\<exists>file. files ?r ''transcript_file'' = Some file \<and> filename file = [])"
    by (simp add: demo_request_def)
  have b: "strip (form_get ?r ''transcript_text'' '''') = []"
    by (simp add: form_get_def strip_def isspace_def)
  show ?thesis
    using b generate_missing_transcript
        [OF a b, where cfg = "(demo_config 587)\<lparr>GROQ_API_KEY := ''key''\<rparr>"
           and l = demo_libs and w = demo_world]
    by (simp add: demo_request_def)
qed

text \<open>
  C10: when a request to \<open>/generate\<close> carries an uploaded file with a non-empty name,
  the field \<open>transcript_text\<close> has no effect on what the handler does, whatever it
  holds or whether it is there at all. With a disallowed extension the request is
  redirected with the notice about the supported types, and when the extraction of an
  allowed file gives the empty text it is redirected with the notice that asks for a
  transcript, pasted text or not.
\<close>

theorem generate_file_overrides_text:
  assumes "files req ''transcript_file'' = Some file" and "filename file \<noteq> []"
  shows
    "let name = secure_filename l (filename file);
         save_path = os_path_join UPLOAD_FOLDER name;
         saved = emit (ExtractorCalled save_path)
                   (emit (FileSaved save_path) (w\<lparr>disk := (disk w)(save_path \<mapsto> content file)\<rparr>))
     in generate cfg l (req\<lparr>form := (form req)(''transcript_text'' := pasted)\<rparr>) w =
          generate cfg l req w \<and>
        (\<not> has_allowed_extension name \<longrightarrow>
           generate cfg l req w =
             (Redirect ''index'', flash ''Only .txt, .pdf, and .docx files are supported.'' w)) \<and>
        (has_allowed_extension name \<and> save_error l save_path = None \<and>
         extract_text_from_file l (disk saved) save_path = Inr '''' \<longrightarrow>
           generate cfg l req w =
             (Redirect ''index'', flash ''Please upload or paste a transcript.'' saved))"
  using assms
  by (simp add: generate_def Let_def allowed_file_eq form_get_def generate_summary_def)

theorem generate_file_overrides_text_witness:
  "has_allowed_extension ''empty.txt'' \<and>
   generate (demo_config 587) demo_libs
       (demo_request
          \<lparr>form := [''transcript_text'' \<mapsto> ''Alice: hello''],
           files := [''transcript_file'' \<mapsto> \<lparr>filename = ''empty.txt'', content = ''''\<rparr>]\<rparr>)
       demo_world =
     (Redirect ''index'',
      \<lparr>disk = [''uploads/empty.txt'' \<mapsto> ''''],
       trace = [FileSaved ''uploads/empty.txt'', ExtractorCalled ''uploads/empty.txt''],
       flashed = [''Please upload or paste a transcript.'']\<rparr>)"
proof -
  let ?up = "\<lparr>filename = ''empty.txt'', content = ''''\<rparr>"
  let ?r = "demo_request\<lparr>files := [''transcript_file'' \<mapsto> ?up]\<rparr>"
  let ?saved = "\<lparr>disk = [''uploads/empty.txt'' \<mapsto> ''''],
       trace = [FileSaved ''uploads/empty.txt'', ExtractorCalled ''uploads/empty.txt''],
       flashed = []\<rparr>"
  have f: "files ?r ''transcript_file'' = Some ?up" "filename ?up \<noteq> []" by simp_all
  have yes: "has_allowed_extension ''empty.txt''"
    by (simp add: has_allowed_extension_def extension_def lower_code ALLOWED_EXTENSIONS_def)
  have lib: "secure_filename demo_libs (filename ?up) = ''empty.txt''"
    "save_error demo_libs ''uploads/empty.txt'' = None"
    "os_path_join UPLOAD_FOLDER ''empty.txt'' = ''uploads/empty.txt''"
    by (simp_all add: demo_libs_def os_path_join_def UPLOAD_FOLDER_def)
  have saved: "emit (ExtractorCalled ''uploads/empty.txt'')
      (emit (FileSaved ''uploads/empty.txt'')
        (demo_world\<lparr>disk := (disk demo_world)(''uploads/empty.txt'' \<mapsto> content ?up)\<rparr>)) = ?saved"
    by (simp add: demo_world_def emit_def)
  have ex: "extract_text_from_file demo_libs (disk ?saved) ''uploads/empty.txt'' = Inr ''''"
    by (simp add: extract_text_from_file_def item_rsplit1 lower_code open_file_def demo_libs_def)
  have r: "?r\<lparr>form := (form ?r)(''transcript_text'' := Some ''Alice: hello'')\<rparr> =
      demo_request\<lparr>form := [''transcript_text'' \<mapsto> ''Alice: hello''],
                     files := [''transcript_file'' \<mapsto> ?up]\<rparr>"
    by (simp add: demo_request_def)
  note t = generate_file_overrides_text
        [OF f, where l = demo_libs and cfg = "demo_config 587"
           and pasted = "Some ''Alice: hello''" and w = demo_world,
         unfolded Let_def lib saved r]
  from t have same: "generate (demo_config 587) demo_libs
       (demo_request\<lparr>form := [''transcript_text'' \<mapsto> ''Alice: hello''],
                      files := [''transcript_file'' \<mapsto> ?up]\<rparr>) demo_world =
       generate (demo_config 587) demo_libs ?r demo_world"
    by (rule conjunct1)
  from t yes lib(2) ex have "generate (demo_config 587) demo_libs ?r demo_world =
      (Redirect ''index'', flash ''Please upload or paste a transcript.'' ?saved)"
    by blast
  with same yes show ?thesis by (simp add: flash_def)
qed

end
